theory Spec2Isabelle
  imports Complex_Main "HOL-Library.Word"
begin

section \<open>Strings, numbers and property lookup\<close>

text \<open>
  A JavaScript string is a sequence of UTF-16 code units. The labels of \<^verbatim>\<open>app.tsx\<close>
  are Japanese; they are written here by their code units. ASCII property names are
  converted from HOL strings by \<open>ascii\<close>.
\<close>

type_synonym jsstring = "16 word list"

definition ascii :: "string \<Rightarrow> jsstring" where
  "ascii s = map of_char s"

text \<open>
  A JavaScript \<^verbatim>\<open>number\<close> is an IEEE-754 double. The value that the scoring code holds
  is either a finite double, written as the real number it stands for, or not finite
  (\<^verbatim>\<open>undefined\<close> read from a missing key, \<^verbatim>\<open>NaN\<close>, an infinity), written \<open>None\<close>.
  The sums and counts of the program are integers far below \<open>2^53\<close>, which doubles add
  exactly. A quotient is rounded to the nearest double, ties to the even significand:
  \<open>roundToDouble\<close> takes the binade \<open>2^e \<le> |x| < 2^(e+1)\<close> of its argument and rounds to
  a multiple of \<open>2^(e-52)\<close>, the spacing of the 53-bit significands there. Overflow and
  gradual underflow are left out: a quotient of two such integers is 0 or lies between
  \<open>2^(-53)\<close> and \<open>2^53\<close>.
\<close>

type_synonym jsnumber = "real option"

definition roundHalfEven :: "real \<Rightarrow> int" where
  "roundHalfEven y =
     (let n = \<lfloor>y\<rfloor>; r = y - of_int n
      in if r < 1 / 2 then n else if r > 1 / 2 then n + 1 else if even n then n else n + 1)"

definition roundToDouble :: "real \<Rightarrow> real" where
  "roundToDouble x =
     (if x = 0 then 0
      else
        let e = \<lfloor>log 2 \<bar>x\<bar>\<rfloor>;
            u = 2 powi (e - 52)
        in sgn x * (u * of_int (roundHalfEven (\<bar>x\<bar> / u))))"

definition num_add :: "jsnumber \<Rightarrow> jsnumber \<Rightarrow> jsnumber" where
  "num_add a b = (case a of None \<Rightarrow> None
                  | Some x \<Rightarrow> (case b of None \<Rightarrow> None | Some y \<Rightarrow> Some (x + y)))"

definition num_div :: "jsnumber \<Rightarrow> jsnumber \<Rightarrow> jsnumber" where
  "num_div a b = (case a of None \<Rightarrow> None
                  | Some x \<Rightarrow> (case b of None \<Rightarrow> None
                                | Some y \<Rightarrow> if y = 0 then None
                                            else Some (roundToDouble (x / y))))"

text \<open>
  The lookup tables of the program are plain objects (\<^verbatim>\<open>const map = {}\<close>), so a read
  \<^verbatim>\<open>map[key]\<close> that finds no own property continues in \<^verbatim>\<open>Object.prototype\<close>. The
  value read is the own property, a member inherited from the prototype, or
  \<^verbatim>\<open>undefined\<close> (\<open>None\<close>).
\<close>

datatype 'id propval = Own 'id | Inherited jsstring

definition objectPrototypeKeys :: "jsstring list" where
  "objectPrototypeKeys = map ascii
     [''constructor'', ''hasOwnProperty'', ''isPrototypeOf'', ''propertyIsEnumerable'',
      ''toLocaleString'', ''toString'', ''valueOf'', ''__proto__'',
      ''__defineGetter__'', ''__defineSetter__'', ''__lookupGetter__'',
      ''__lookupSetter__'']"

definition getProperty :: "(jsstring \<rightharpoonup> 'id) \<Rightarrow> jsstring \<Rightarrow> 'id propval option" where
  "getProperty m key =
     (case m key of
        Some i \<Rightarrow> Some (Own i)
      | None \<Rightarrow> if key \<in> set objectPrototypeKeys then Some (Inherited key) else None)"

section \<open>Domain and facet definitions\<close>

datatype DomainId =
  extraversion | agreeableness | conscientiousness | negativeEmotionality | openness

datatype FacetId =
  sociability | assertiveness | energyLevel
  | compassion | respectfulness | trust
  | organization | productivity | responsibility
  | anxiety | depression | emotionalVolatility
  | intellectualCuriosity | aestheticSensitivity | creativeImagination

text \<open>A definition \<^verbatim>\<open>{ id, label }\<close> is the pair of its id and its label.\<close>

definition domainDefinitions :: "(DomainId \<times> jsstring) list" where
  "domainDefinitions =
     [(extraversion, [0x5916, 0x5411, 0x6027]),
      (agreeableness, [0x5354, 0x8ABF, 0x6027]),
      (conscientiousness, [0x52E4, 0x52C9, 0x6027]),
      (negativeEmotionality, [0x5426, 0x5B9A, 0x7684, 0x60C5, 0x52D5, 0x6027]),
      (openness, [0x958B, 0x653E, 0x6027])]"

definition facetDefinitions :: "(FacetId \<times> jsstring) list" where
  "facetDefinitions =
     [(sociability, [0x793E, 0x4EA4, 0x6027]),
      (assertiveness, [0x81EA, 0x5DF1, 0x4E3B, 0x5F35, 0x6027]),
      (energyLevel, [0x6D3B, 0x529B]),
      (compassion, [0x601D, 0x3044, 0x3084, 0x308A]),
      (respectfulness, [0x656C, 0x610F]),
      (trust, [0x4FE1, 0x7528]),
      (organization, [0x79E9, 0x5E8F]),
      (productivity, [0x751F, 0x7523, 0x6027]),
      (responsibility, [0x8CAC, 0x4EFB, 0x611F]),
      (anxiety, [0x4E0D, 0x5B89]),
      (depression, [0x6291, 0x3046, 0x3064]),
      (emotionalVolatility, [0x60C5, 0x7DD2, 0x4E0D, 0x5B89, 0x5B9A, 0x6027]),
      (intellectualCuriosity, [0x77E5, 0x7684, 0x597D, 0x5947, 0x5FC3]),
      (aestheticSensitivity, [0x7F8E, 0x7684, 0x611F, 0x6027]),
      (creativeImagination, [0x5275, 0x9020, 0x7684, 0x60F3, 0x50CF, 0x529B])]"

text \<open>
  \<^verbatim>\<open>buildIdByLabelMap\<close>: the loop assigns \<^verbatim>\<open>map[definition.label] = definition.id\<close>
  for each definition in turn, starting from the empty object.
\<close>

fun buildIdByLabelMap_loop ::
  "('id \<times> jsstring) list \<Rightarrow> (jsstring \<rightharpoonup> 'id) \<Rightarrow> (jsstring \<rightharpoonup> 'id)" where
  "buildIdByLabelMap_loop [] m = m"
| "buildIdByLabelMap_loop (definition # rest) m =
     buildIdByLabelMap_loop rest (m(snd definition \<mapsto> fst definition))"

definition buildIdByLabelMap :: "('id \<times> jsstring) list \<Rightarrow> (jsstring \<rightharpoonup> 'id)" where
  "buildIdByLabelMap definitions = buildIdByLabelMap_loop definitions Map.empty"

text \<open>
  \<^verbatim>\<open>buildZeroMap\<close>: a \<^verbatim>\<open>Record<Id, number>\<close> is a function from ids to numbers; the
  empty object reads \<^verbatim>\<open>undefined\<close> everywhere, and the loop stores 0 under each
  definition's id.
\<close>

fun buildZeroMap_loop :: "('id \<times> jsstring) list \<Rightarrow> ('id \<Rightarrow> jsnumber) \<Rightarrow> ('id \<Rightarrow> jsnumber)" where
  "buildZeroMap_loop [] m = m"
| "buildZeroMap_loop (definition # rest) m =
     buildZeroMap_loop rest (m(fst definition := Some 0))"

definition buildZeroMap :: "('id \<times> jsstring) list \<Rightarrow> ('id \<Rightarrow> jsnumber)" where
  "buildZeroMap definitions = buildZeroMap_loop definitions (\<lambda>_. None)"

definition domainIdByLabel :: "jsstring \<rightharpoonup> DomainId" where
  "domainIdByLabel = buildIdByLabelMap domainDefinitions"

definition facetIdByLabel :: "jsstring \<rightharpoonup> FacetId" where
  "facetIdByLabel = buildIdByLabelMap facetDefinitions"

definition createZeroDomainMap :: "DomainId \<Rightarrow> jsnumber" where
  "createZeroDomainMap = buildZeroMap domainDefinitions"

definition createZeroFacetMap :: "FacetId \<Rightarrow> jsnumber" where
  "createZeroFacetMap = buildZeroMap facetDefinitions"

section \<open>The item catalog\<close>

record RawItem =
  number :: int
  itemText :: jsstring
  domain :: jsstring
  facet :: jsstring
  reverse :: bool

text \<open>
  A normalized item holds what the lookups returned. The declared type of
  \<^verbatim>\<open>domainId\<close> is \<^verbatim>\<open>DomainId\<close>, and \<open>Own\<close> carries such an id; the lookup can also
  return an inherited member of \<^verbatim>\<open>Object.prototype\<close>, which passes the test
  \<^verbatim>\<open>!domainId\<close> as well.
\<close>

record Item =
  number :: int
  itemText :: jsstring
  domainId :: "DomainId propval"
  facetId :: "FacetId propval"
  reverse :: bool

datatype error = UnknownDomainLabel jsstring | UnknownFacetLabel jsstring

text \<open>
  \<^verbatim>\<open>normalizeItems\<close>: the loop over the raw list; \<open>normalized\<close> is the array built so
  far. Every id and every inherited member is truthy, so \<^verbatim>\<open>!domainId\<close> holds exactly
  for \<^verbatim>\<open>undefined\<close>. A \<^verbatim>\<open>throw\<close> ends the loop with the error and without a list.
\<close>

fun normalizeItems_loop :: "RawItem list \<Rightarrow> Item list \<Rightarrow> error + Item list" where
  "normalizeItems_loop [] normalized = Inr normalized"
| "normalizeItems_loop (rawItem # rest) normalized =
     (case getProperty domainIdByLabel (RawItem.domain rawItem) of
        None \<Rightarrow> Inl (UnknownDomainLabel (RawItem.domain rawItem))
      | Some domainId' \<Rightarrow>
          (case getProperty facetIdByLabel (RawItem.facet rawItem) of
             None \<Rightarrow> Inl (UnknownFacetLabel (RawItem.facet rawItem))
           | Some facetId' \<Rightarrow>
               normalizeItems_loop rest
                 (normalized @
                   [\<lparr>number = RawItem.number rawItem,
                     itemText = RawItem.itemText rawItem,
                     domainId = domainId',
                     facetId = facetId',
                     reverse = RawItem.reverse rawItem\<rparr>])))"

definition normalizeItems :: "RawItem list \<Rightarrow> error + Item list" where
  "normalizeItems rawList = normalizeItems_loop rawList []"

text \<open>
  The labels of the two definition lists, and a raw item whose domain label is the name
  of a member of \<^verbatim>\<open>Object.prototype\<close> (its facet label is the one of sociability).
\<close>

definition knownDomainLabel :: "jsstring \<Rightarrow> bool" where
  "knownDomainLabel l \<longleftrightarrow> l \<in> set (map snd domainDefinitions)"

definition knownFacetLabel :: "jsstring \<Rightarrow> bool" where
  "knownFacetLabel l \<longleftrightarrow> l \<in> set (map snd facetDefinitions)"

definition inheritedRawItem :: RawItem where
  "inheritedRawItem =
     \<lparr>RawItem.number = 1, itemText = [], domain = ascii ''constructor'',
      facet = [0x793E, 0x4EA4, 0x6027], reverse = False\<rparr>"

text \<open>
  The catalog \<^verbatim>\<open>questionnaireItems = normalizeItems(rawItems)\<close> is read from a JSON
  file; every definition below takes it as the parameter \<open>items\<close>, and
  \<^verbatim>\<open>totalItems\<close> is its length.
\<close>

definition totalItems :: "Item list \<Rightarrow> int" where
  "totalItems items = int (length items)"

section \<open>Scoring\<close>

record Totals =
  domains :: "DomainId \<Rightarrow> jsnumber"
  facets :: "FacetId \<Rightarrow> jsnumber"

definition createInitialTotals :: Totals where
  "createInitialTotals = \<lparr>domains = createZeroDomainMap, facets = createZeroFacetMap\<rparr>"

definition calculateAverage :: "jsnumber \<Rightarrow> jsnumber \<Rightarrow> jsnumber" where
  "calculateAverage sumValue count = (if count = Some 0 then Some 0 else num_div sumValue count)"

definition REVERSE_BASE :: int where
  "REVERSE_BASE = 6"

definition reverseScore :: "int \<Rightarrow> int" where
  "reverseScore v = REVERSE_BASE - v"

text \<open>
  \<^verbatim>\<open>record[key] += v\<close>. Under an id the stored number grows by \<open>v\<close>. An inherited
  member used as a key is converted to a string that is no id, so the write lands on a
  property that no id reads, and the record seen through the ids is unchanged.
\<close>

definition addAt :: "('id \<Rightarrow> jsnumber) \<Rightarrow> 'id propval \<Rightarrow> int \<Rightarrow> ('id \<Rightarrow> jsnumber)" where
  "addAt record' key v =
     (case key of
        Own i \<Rightarrow> record'(i := num_add (record' i) (Some (real_of_int v)))
      | Inherited p \<Rightarrow> record')"

record ItemStats =
  domainCounts :: "DomainId \<Rightarrow> jsnumber"
  facetCounts :: "FacetId \<Rightarrow> jsnumber"

fun createItemStats_loop :: "Item list \<Rightarrow> ItemStats \<Rightarrow> ItemStats" where
  "createItemStats_loop [] acc = acc"
| "createItemStats_loop (item # rest) acc =
     createItemStats_loop rest
       \<lparr>domainCounts = addAt (domainCounts acc) (domainId item) 1,
        facetCounts = addAt (facetCounts acc) (facetId item) 1\<rparr>"

definition createItemStats :: "Item list \<Rightarrow> ItemStats" where
  "createItemStats items =
     createItemStats_loop items
       \<lparr>domainCounts = createZeroDomainMap, facetCounts = createZeroFacetMap\<rparr>"

record 'id ScoreEntry =
  entryId :: 'id
  entryLabel :: jsstring
  entryValue :: jsnumber

record ScoreSummary =
  domains :: "DomainId ScoreEntry list"
  facets :: "FacetId ScoreEntry list"

text \<open>
  The responses are an object keyed by item number. \<^verbatim>\<open>!selected\<close> holds for a missing
  entry and for the number 0.
\<close>

type_synonym Responses = "int \<rightharpoonup> int"

definition allAnswered :: "Item list \<Rightarrow> Responses \<Rightarrow> bool" where
  "allAnswered items responses \<longleftrightarrow> int (card (dom responses)) = totalItems items"

fun accumulate :: "Item list \<Rightarrow> Responses \<Rightarrow> Totals \<Rightarrow> Totals" where
  "accumulate [] responses totals = totals"
| "accumulate (item # rest) responses totals =
     (case responses (number item) of
        None \<Rightarrow> accumulate rest responses totals
      | Some selected \<Rightarrow>
          if selected = 0 then accumulate rest responses totals
          else
            let score = (if reverse item then reverseScore selected else selected)
            in accumulate rest responses
                 \<lparr>Totals.domains = addAt (Totals.domains totals) (domainId item) score,
                  Totals.facets = addAt (Totals.facets totals) (facetId item) score\<rparr>)"

text \<open>The two loops over the definition lists push one entry per definition, in order.\<close>

definition scoreEntries ::
  "('id \<times> jsstring) list \<Rightarrow> ('id \<Rightarrow> jsnumber) \<Rightarrow> ('id \<Rightarrow> jsnumber) \<Rightarrow> 'id ScoreEntry list" where
  "scoreEntries definitions sumOf countOf =
     map (\<lambda>definition.
            \<lparr>entryId = fst definition,
             entryLabel = snd definition,
             entryValue = calculateAverage (sumOf (fst definition)) (countOf (fst definition))\<rparr>)
         definitions"

definition result :: "Item list \<Rightarrow> Responses \<Rightarrow> ScoreSummary option" where
  "result items responses =
     (if \<not> allAnswered items responses then None
      else
        let totals = accumulate items responses createInitialTotals;
            stats = createItemStats items
        in Some \<lparr>ScoreSummary.domains =
                    scoreEntries domainDefinitions (Totals.domains totals) (domainCounts stats),
                  ScoreSummary.facets =
                    scoreEntries facetDefinitions (Totals.facets totals) (facetCounts stats)\<rparr>)"


subsection \<open>Notions used to state the scoring properties\<close>

text \<open>
  The effective score in the words of the specification (\<open>6 - rating\<close> for a reverse
  item), the items of a category, the items that the accumulation loop does not skip,
  and the mean of a list of scores.
\<close>

definition effectiveScore :: "Item \<Rightarrow> int \<Rightarrow> int" where
  "effectiveScore item rating = (if reverse item then 6 - rating else rating)"

definition answered :: "Responses \<Rightarrow> Item \<Rightarrow> bool" where
  "answered responses item \<longleftrightarrow>
     (case responses (number item) of None \<Rightarrow> False | Some selected \<Rightarrow> selected \<noteq> 0)"

definition ratingOf :: "Responses \<Rightarrow> Item \<Rightarrow> int" where
  "ratingOf responses item =
     (case responses (number item) of None \<Rightarrow> 0 | Some selected \<Rightarrow> selected)"

definition itemsOfDomain :: "Item list \<Rightarrow> DomainId \<Rightarrow> Item list" where
  "itemsOfDomain items d = filter (\<lambda>item. domainId item = Own d) items"

definition itemsOfFacet :: "Item list \<Rightarrow> FacetId \<Rightarrow> Item list" where
  "itemsOfFacet items f = filter (\<lambda>item. facetId item = Own f) items"

definition scoreSum :: "Responses \<Rightarrow> Item list \<Rightarrow> int" where
  "scoreSum responses its =
     sum_list (map (\<lambda>item. effectiveScore item (ratingOf responses item))
                   (filter (answered responses) its))"

definition mean :: "int list \<Rightarrow> real" where
  "mean xs = real_of_int (sum_list xs) / real (length xs)"

definition effectiveScores :: "Responses \<Rightarrow> Item list \<Rightarrow> int list" where
  "effectiveScores responses its =
     map (\<lambda>item. effectiveScore item (ratingOf responses item)) its"

text \<open>
  A response set is complete when it has exactly one entry per item number of the
  catalog, each a rating from 1 to 5.
\<close>

definition complete :: "Item list \<Rightarrow> Responses \<Rightarrow> bool" where
  "complete items responses \<longleftrightarrow>
     dom responses = set (map number items)
     \<and> list_all (\<lambda>item. case responses (number item) of
                           None \<Rightarrow> False
                         | Some rating \<Rightarrow> 1 \<le> rating \<and> rating \<le> 5) items"

text \<open>
  The catalog of the specification's end-to-end scenario: two items of the domain
  extraversion and the facet sociability, the second one reverse-keyed.
\<close>

definition exampleItems :: "Item list" where
  "exampleItems =
     [\<lparr>number = 1, itemText = [], domainId = Own extraversion, facetId = Own sociability,
       reverse = False\<rparr>,
      \<lparr>number = 2, itemText = [], domainId = Own extraversion, facetId = Own sociability,
       reverse = True\<rparr>]"

definition exampleResponses :: Responses where
  "exampleResponses = [1 \<mapsto> 4, 2 \<mapsto> 2]"

text \<open>
  A catalog of three items of the domain extraversion and the facet sociability, with
  the ratings 2, 2 and 3: their mean is \<open>7/3\<close>.
\<close>

definition thirdsItems :: "Item list" where
  "thirdsItems =
     [\<lparr>number = 1, itemText = [], domainId = Own extraversion, facetId = Own sociability,
       reverse = False\<rparr>,
      \<lparr>number = 2, itemText = [], domainId = Own extraversion, facetId = Own sociability,
       reverse = False\<rparr>,
      \<lparr>number = 3, itemText = [], domainId = Own extraversion, facetId = Own sociability,
       reverse = False\<rparr>]"

definition thirdsResponses :: Responses where
  "thirdsResponses = [1 \<mapsto> 2, 2 \<mapsto> 2, 3 \<mapsto> 3]"

text \<open>
  The recorded ratings of the items of a list lie between 1 and 5; an average lies
  below the mean of the effective scores of the answered items (it is 0 when no item
  is answered); and an entry value that is the sum over the answered items divided by
  the number of all items of the category, with that bias when the catalog has fewer
  than \<open>2^32\<close> items, as every JavaScript array has.
\<close>

definition ratingsInRange :: "Responses \<Rightarrow> Item list \<Rightarrow> bool" where
  "ratingsInRange responses its \<longleftrightarrow>
     list_all (\<lambda>item. case responses (number item) of
                         None \<Rightarrow> True
                       | Some rating \<Rightarrow> 1 \<le> rating \<and> rating \<le> 5) its"

definition biasedDownward :: "Responses \<Rightarrow> Item list \<Rightarrow> jsnumber \<Rightarrow> bool" where
  "biasedDownward responses its v \<longleftrightarrow>
     (case v of
        None \<Rightarrow> False
      | Some x \<Rightarrow>
          if filter (answered responses) its = [] then x = 0
          else x < mean (effectiveScores responses (filter (answered responses) its)))"

definition skipsUnanswered :: "Item list \<Rightarrow> Responses \<Rightarrow> Item list \<Rightarrow> jsnumber \<Rightarrow> bool" where
  "skipsUnanswered items responses its v \<longleftrightarrow>
     v = calculateAverage (Some (real_of_int (scoreSum responses its))) (Some (real (length its)))
     \<and> (ratingsInRange responses items \<and> length items < 2 ^ 32
          \<and> filter (answered responses) its \<noteq> its
          \<longrightarrow> biasedDownward responses its v)"

text \<open>A response set with two entries, one of them under a number that no item has.\<close>

definition strayResponses :: Responses where
  "strayResponses = [1 \<mapsto> 4, 99 \<mapsto> 3]"

section \<open>The answering flow\<close>

datatype Stage = Intro | Question | Result

record State =
  stage :: Stage
  currentIndex :: int
  responses :: Responses

definition initialState :: State where
  "initialState = \<lparr>stage = Intro, currentIndex = 0, responses = Map.empty\<rparr>"

text \<open>\<^verbatim>\<open>questionnaireItems[currentIndex]\<close> is \<^verbatim>\<open>undefined\<close> outside the array.\<close>

definition currentItem :: "Item list \<Rightarrow> State \<Rightarrow> Item option" where
  "currentItem items s =
     (if 0 \<le> currentIndex s \<and> currentIndex s < int (length items)
      then Some (items ! nat (currentIndex s)) else None)"

definition handleStart :: "State \<Rightarrow> State" where
  "handleStart s = s\<lparr>stage := Question\<rparr>"

definition handleSelect :: "Item list \<Rightarrow> int \<Rightarrow> State \<Rightarrow> State" where
  "handleSelect items rating s =
     (case currentItem items s of
        None \<Rightarrow> s
      | Some item \<Rightarrow> s\<lparr>responses := (responses s)(number item \<mapsto> rating)\<rparr>)"

definition handleNext :: "Item list \<Rightarrow> State \<Rightarrow> State" where
  "handleNext items s =
     (case currentItem items s of
        None \<Rightarrow> s
      | Some item \<Rightarrow>
          (case responses s (number item) of
             None \<Rightarrow> s
           | Some selected \<Rightarrow>
               if selected = 0 then s
               else
                 let nextIndex = currentIndex s + 1
                 in if nextIndex \<ge> totalItems items then s\<lparr>stage := Result\<rparr>
                    else s\<lparr>currentIndex := nextIndex\<rparr>))"

definition handlePrevious :: "State \<Rightarrow> State" where
  "handlePrevious s =
     (if currentIndex s = 0 then s
      else
        let nextIndex = currentIndex s - 1
        in if nextIndex < 0 then s else s\<lparr>currentIndex := nextIndex\<rparr>)"

definition handleRestart :: "State \<Rightarrow> State" where
  "handleRestart s = s\<lparr>stage := Intro, currentIndex := 0, responses := Map.empty\<rparr>"

text \<open>
  The user actions, each run to completion before the next one, and the states they
  reach from the initial state.
\<close>

datatype Action = Start | Select int | Next | Previous | Restart

fun step :: "Item list \<Rightarrow> State \<Rightarrow> Action \<Rightarrow> State" where
  "step items s Start = handleStart s"
| "step items s (Select rating) = handleSelect items rating s"
| "step items s Next = handleNext items s"
| "step items s Previous = handlePrevious s"
| "step items s Restart = handleRestart s"

definition run :: "Item list \<Rightarrow> State \<Rightarrow> Action list \<Rightarrow> State" where
  "run items s actions = foldl (step items) s actions"

text \<open>
  The rating buttons offer the values of the type \<^verbatim>\<open>Rating\<close>, 1 to 5; every other
  action carries no data. The handlers do not test the stage, so any action may follow
  any other.
\<close>

fun validAction :: "Action \<Rightarrow> bool" where
  "validAction (Select rating) \<longleftrightarrow> 1 \<le> rating \<and> rating \<le> 5"
| "validAction a \<longleftrightarrow> True"

fun isNavigation :: "Action \<Rightarrow> bool" where
  "isNavigation Next \<longleftrightarrow> True"
| "isNavigation Previous \<longleftrightarrow> True"
| "isNavigation a \<longleftrightarrow> False"

inductive reachable :: "Item list \<Rightarrow> State \<Rightarrow> bool" for items :: "Item list" where
  reachable_initial: "reachable items initialState"
| reachable_step: "reachable items s \<Longrightarrow> validAction a \<Longrightarrow> reachable items (step items s a)"

definition exampleActions :: "Action list" where
  "exampleActions = [Start, Select 4, Next, Select 2, Next]"

text \<open>The invariant of the answering flow.\<close>

definition invariant :: "Item list \<Rightarrow> State \<Rightarrow> bool" where
  "invariant items s \<longleftrightarrow>
     0 \<le> currentIndex s
     \<and> (currentIndex s = 0 \<or> currentIndex s < int (length items))
     \<and> dom (responses s) \<subseteq> set (map number items)
     \<and> (\<forall>k r. responses s k = Some r \<longrightarrow> 1 \<le> r \<and> r \<le> 5)
     \<and> (\<forall>j < length items. int j < currentIndex s \<longrightarrow>
           number (items ! j) \<in> dom (responses s))
     \<and> (stage s = Result \<longrightarrow>
           (\<forall>j < length items. number (items ! j) \<in> dom (responses s)))"

section \<open>The reverse transform\<close>

text \<open>
  C2. For every rating \<open>r\<close> from 1 to 5, \<open>reverseScore r\<close> is \<open>6 - r\<close>, lies between 1
  and 5 again, and reversing twice gives \<open>r\<close> back.
\<close>

theorem reverseScore_involution:
  "1 \<le> r \<and> r \<le> 5 \<Longrightarrow>
     reverseScore r = 6 - r \<and> 1 \<le> reverseScore r \<and> reverseScore r \<le> 5
     \<and> reverseScore (reverseScore r) = r"
  by (simp add: reverseScore_def REVERSE_BASE_def)

theorem reverseScore_involution_witness:
  "reverseScore 2 = 6 - 2 \<and> 1 \<le> reverseScore 2 \<and> reverseScore 2 \<le> 5
     \<and> reverseScore (reverseScore 2) = 2"
  by (rule reverseScore_involution) simp


section \<open>Rounding to a double\<close>

text \<open>
  The rounding keeps every bound that is itself a multiple of the spacing, so a value
  between 1 and 5 stays there; it raises a positive value by at most the factor
  \<open>1 + 2^(-53)\<close>; and it changes \<open>7/3\<close>, which no double equals.
\<close>

lemma roundHalfEven_cases: "roundHalfEven y = \<lfloor>y\<rfloor> \<or> roundHalfEven y = \<lfloor>y\<rfloor> + 1"
  by (simp add: roundHalfEven_def Let_def)

lemma roundHalfEven_lower: "of_int a \<le> y \<Longrightarrow> a \<le> roundHalfEven y"
proof -
  assume "of_int a \<le> y"
  then have "a \<le> \<lfloor>y\<rfloor>" by (simp add: le_floor_iff)
  then show ?thesis using roundHalfEven_cases [of y] by linarith
qed

lemma roundHalfEven_upper: "y \<le> of_int b \<Longrightarrow> roundHalfEven y \<le> b"
proof (cases "y = of_int \<lfloor>y\<rfloor>")
  case True
  assume "y \<le> of_int b"
  then have "\<lfloor>y\<rfloor> \<le> b" by (simp add: floor_le_iff)
  moreover have "roundHalfEven y = \<lfloor>y\<rfloor>"
    using True by (simp add: roundHalfEven_def Let_def)
  ultimately show ?thesis by simp
next
  case False
  assume "y \<le> of_int b"
  have "of_int \<lfloor>y\<rfloor> < y" using False of_int_floor_le [of y] by linarith
  then have "of_int \<lfloor>y\<rfloor> < (of_int b :: real)" using \<open>y \<le> of_int b\<close> by linarith
  then have "\<lfloor>y\<rfloor> < b" by simp
  then show ?thesis using roundHalfEven_cases [of y] by linarith
qed

lemma roundHalfEven_error: "real_of_int (roundHalfEven y) \<le> y + 1 / 2"
proof (cases "y - of_int \<lfloor>y\<rfloor> < 1 / 2")
  case True
  then have "roundHalfEven y = \<lfloor>y\<rfloor>"
    by (simp add: roundHalfEven_def Let_def)
  moreover have "real_of_int \<lfloor>y\<rfloor> \<le> y" by (rule of_int_floor_le)
  ultimately show ?thesis by linarith
next
  case False
  have "roundHalfEven y \<le> \<lfloor>y\<rfloor> + 1"
    using roundHalfEven_cases [of y] by linarith
  then have "real_of_int (roundHalfEven y) \<le> real_of_int \<lfloor>y\<rfloor> + 1"
    by (metis of_int_1 of_int_add of_int_le_iff)
  with False show ?thesis by linarith
qed

lemma powr_powi_two: "(2::real) powr real_of_int k = 2 powi k"
  by (simp add: powr_real_of_int')

lemma floor_log2_iff:
  assumes "0 < x"
  shows "\<lfloor>log 2 x\<rfloor> = k \<longleftrightarrow> 2 powi k \<le> x \<and> x < 2 powi (k + 1)"
  using floor_log_eq_powr_iff [of x 2 k] assms unfolding powr_powi_two by simp

lemma binade:
  assumes "0 < x"
  shows "2 powi \<lfloor>log 2 x\<rfloor> \<le> x" and "x < 2 powi (\<lfloor>log 2 x\<rfloor> + 1)"
  using floor_log2_iff [OF assms, of "\<lfloor>log 2 x\<rfloor>"] by simp_all

lemma binade_unique:
  assumes "0 < x" and "2 powi e \<le> x" and "x < 2 powi (e + 1)"
  shows "\<lfloor>log 2 x\<rfloor> = e"
  using floor_log2_iff [OF assms(1), of e] assms(2,3) by simp

lemma roundToDouble_pos:
  assumes "0 < x"
  shows "roundToDouble x =
    2 powi (\<lfloor>log 2 x\<rfloor> - 52) * of_int (roundHalfEven (x / 2 powi (\<lfloor>log 2 x\<rfloor> - 52)))"
  using assms by (simp add: roundToDouble_def Let_def)

lemma roundToDouble_binade:
  assumes "0 < x" and "2 powi e \<le> x" and "x < 2 powi (e + 1)"
  shows "roundToDouble x = 2 powi (e - 52) * of_int (roundHalfEven (x / 2 powi (e - 52)))"
  using roundToDouble_pos [OF assms(1)] binade_unique [OF assms] by simp

lemma roundToDouble_zero: "roundToDouble 0 = 0"
  by (simp add: roundToDouble_def)

text \<open>A bound that is a multiple of the spacing is kept by the rounding.\<close>

lemma roundToDouble_lower:
  assumes "0 < x" and "of_int m * 2 powi (\<lfloor>log 2 x\<rfloor> - 52) \<le> x"
  shows "of_int m * 2 powi (\<lfloor>log 2 x\<rfloor> - 52) \<le> roundToDouble x"
proof -
  let ?u = "2 powi (\<lfloor>log 2 x\<rfloor> - 52) :: real"
  have u: "0 < ?u" by simp
  then have "of_int m \<le> x / ?u" using assms(2) by (simp add: pos_le_divide_eq)
  then have "m \<le> roundHalfEven (x / ?u)" by (rule roundHalfEven_lower)
  then have "real_of_int m \<le> of_int (roundHalfEven (x / ?u))" by simp
  then have "of_int m * ?u \<le> of_int (roundHalfEven (x / ?u)) * ?u"
    using u by (simp add: mult_right_mono)
  then show ?thesis by (simp add: roundToDouble_pos [OF assms(1)] mult.commute)
qed

lemma roundToDouble_upper:
  assumes "0 < x" and "x \<le> of_int m * 2 powi (\<lfloor>log 2 x\<rfloor> - 52)"
  shows "roundToDouble x \<le> of_int m * 2 powi (\<lfloor>log 2 x\<rfloor> - 52)"
proof -
  let ?u = "2 powi (\<lfloor>log 2 x\<rfloor> - 52) :: real"
  have u: "0 < ?u" by simp
  then have "x / ?u \<le> of_int m" using assms(2) by (simp add: pos_divide_le_eq)
  then have "roundHalfEven (x / ?u) \<le> m" by (rule roundHalfEven_upper)
  then have "real_of_int (roundHalfEven (x / ?u)) \<le> of_int m" by simp
  then have "of_int (roundHalfEven (x / ?u)) * ?u \<le> of_int m * ?u"
    using u by (simp add: mult_right_mono)
  then show ?thesis by (simp add: roundToDouble_pos [OF assms(1)] mult.commute)
qed

lemma small_exponent_multiple:
  assumes "e \<le> 52"
  shows "real_of_int (n * 2 ^ nat (52 - e)) * 2 powi (e - 52) = of_int n"
proof -
  have "(2::real) powi (e - 52) = 2 powi (- int (nat (52 - e)))"
    using assms by simp
  also have "\<dots> = 1 / 2 ^ nat (52 - e)"
    by (simp only: power_int_minus_divide power_int_of_nat)
  finally show ?thesis by simp
qed

lemma roundToDouble_range:
  assumes "1 \<le> x" and "x \<le> 5"
  shows "1 \<le> roundToDouble x \<and> roundToDouble x \<le> 5"
proof -
  have pos: "0 < x" using assms by simp
  let ?e = "\<lfloor>log 2 x\<rfloor>"
  have "?e \<le> 2"
  proof (rule ccontr)
    assume "\<not> ?e \<le> 2"
    then have "3 \<le> ?e" by simp
    then have "(2::real) powi 3 \<le> 2 powi ?e" by (intro power_int_increasing) simp_all
    with binade(1) [OF pos] have "8 \<le> x" by simp
    with assms show False by simp
  qed
  then have small: "?e \<le> 52" by simp
  have "real_of_int (1 * 2 ^ nat (52 - ?e)) * 2 powi (?e - 52) \<le> x"
    unfolding small_exponent_multiple [OF small] using assms by simp
  from roundToDouble_lower [OF pos this]
  have "1 \<le> roundToDouble x"
    unfolding small_exponent_multiple [OF small] by simp
  moreover have "x \<le> real_of_int (5 * 2 ^ nat (52 - ?e)) * 2 powi (?e - 52)"
    unfolding small_exponent_multiple [OF small] using assms by simp
  from roundToDouble_upper [OF pos this]
  have "roundToDouble x \<le> 5"
    unfolding small_exponent_multiple [OF small] by simp
  ultimately show ?thesis ..
qed

lemma roundToDouble_relative:
  assumes "0 < x"
  shows "roundToDouble x \<le> x * (1 + 2 powi (- 53))"
proof -
  let ?e = "\<lfloor>log 2 x\<rfloor>"
  let ?u = "2 powi (?e - 52) :: real"
  have u: "0 < ?u" by simp
  have "?u = 2 powi ?e * 2 powi (- 52)"
    using power_int_add [of "2::real" ?e "- 52"] by simp
  also have "\<dots> \<le> x * 2 powi (- 52)"
    using binade(1) [OF assms] by (intro mult_right_mono) simp_all
  finally have ux: "?u \<le> x * 2 powi (- 52)" .
  have "real_of_int (roundHalfEven (x / ?u)) \<le> x / ?u + 1 / 2"
    by (rule roundHalfEven_error)
  then have "?u * real_of_int (roundHalfEven (x / ?u)) \<le> ?u * (x / ?u + 1 / 2)"
    using u by (intro mult_left_mono) simp_all
  also have "\<dots> = x + ?u / 2" using u by (simp add: field_simps)
  also have "\<dots> \<le> x + x * 2 powi (- 52) / 2" using ux by simp
  also have "\<dots> = x * (1 + 2 powi (- 53))" by (simp add: field_simps)
  finally show ?thesis by (simp add: roundToDouble_pos [OF assms])
qed

lemma rounded_quotient_below:
  assumes "0 < s" and "0 < k" and "k < n" and "n < 2 ^ 32"
  shows "roundToDouble (real_of_int s / real n) < real_of_int s / real k"
proof -
  let ?q = "real_of_int s / real n"
  have q: "0 < ?q" using assms by simp
  have "roundToDouble ?q \<le> ?q * (1 + 2 powi (- 53))"
    by (rule roundToDouble_relative [OF q])
  also have "\<dots> < real_of_int s / real k"
  proof -
    have "real k < 2 ^ 32" using assms(3,4) by (metis less_trans of_nat_less_numeral_power_cancel_iff)
    then have "real k * 2 powi (- 53) < 1" by simp
    moreover have "real k + 1 \<le> real n" using assms(3) by linarith
    ultimately have "real k * (1 + 2 powi (- 53)) < real n"
      by (simp add: algebra_simps)
    then have "real_of_int s * (real k * (1 + 2 powi (- 53))) < real_of_int s * real n"
      using assms(1) by simp
    then show ?thesis
      using assms by (simp add: field_simps)
  qed
  finally show ?thesis .
qed

lemma roundToDouble_four: "roundToDouble 4 = 4"
proof -
  have "roundToDouble 4 = 2 powi (2 - 52) * of_int (roundHalfEven (4 / 2 powi (2 - 52)))"
    by (rule roundToDouble_binade) simp_all
  then show ?thesis by (simp add: roundHalfEven_def)
qed

lemma roundToDouble_two: "roundToDouble 2 = 2"
proof -
  have "roundToDouble 2 = 2 powi (1 - 52) * of_int (roundHalfEven (2 / 2 powi (1 - 52)))"
    by (rule roundToDouble_binade) simp_all
  then show ?thesis by (simp add: roundHalfEven_def)
qed

lemma roundToDouble_seven_thirds: "roundToDouble (7 / 3) = 5254199565265579 / 2 ^ 51"
proof -
  have "roundToDouble (7 / 3) =
      2 powi (1 - 52) * of_int (roundHalfEven ((7 / 3) / 2 powi (1 - 52)))"
    by (rule roundToDouble_binade) simp_all
  then show ?thesis by (simp add: roundHalfEven_def Let_def)
qed

lemma seven_thirds_not_double: "roundToDouble (7 / 3) \<noteq> 7 / 3"
  by (simp add: roundToDouble_seven_thirds)

section \<open>Catalog normalization\<close>

lemma buildIdByLabelMap_loop_dom:
  "dom (buildIdByLabelMap_loop definitions m) = dom m \<union> set (map snd definitions)"
  by (induction definitions arbitrary: m) auto

lemma buildIdByLabelMap_dom: "dom (buildIdByLabelMap definitions) = set (map snd definitions)"
  by (simp add: buildIdByLabelMap_def buildIdByLabelMap_loop_dom)

lemma domainIdByLabel_None: "domainIdByLabel l = None \<longleftrightarrow> \<not> knownDomainLabel l"
  using buildIdByLabelMap_dom [of domainDefinitions]
  by (auto simp: domainIdByLabel_def knownDomainLabel_def domIff)

lemma facetIdByLabel_None: "facetIdByLabel l = None \<longleftrightarrow> \<not> knownFacetLabel l"
  using buildIdByLabelMap_dom [of facetDefinitions]
  by (auto simp: facetIdByLabel_def knownFacetLabel_def domIff)

lemma getProperty_None:
  "getProperty m key = None \<longleftrightarrow> m key = None \<and> key \<notin> set objectPrototypeKeys"
  by (simp add: getProperty_def split: option.splits)

lemma normalizeItems_loop_fails:
  "(\<exists>e. normalizeItems_loop rawList normalized = Inl e) \<longleftrightarrow>
     (\<exists>rawItem \<in> set rawList.
        getProperty domainIdByLabel (RawItem.domain rawItem) = None
        \<or> getProperty facetIdByLabel (RawItem.facet rawItem) = None)"
  by (induction rawList arbitrary: normalized) (auto split: option.splits)

lemma normalizeItems_fails_iff:
  "(\<exists>e. normalizeItems rawList = Inl e) \<longleftrightarrow>
     (\<exists>rawItem \<in> set rawList.
        (\<not> knownDomainLabel (RawItem.domain rawItem)
           \<and> RawItem.domain rawItem \<notin> set objectPrototypeKeys)
        \<or> (\<not> knownFacetLabel (RawItem.facet rawItem)
           \<and> RawItem.facet rawItem \<notin> set objectPrototypeKeys))"
  by (simp add: normalizeItems_def normalizeItems_loop_fails getProperty_None
      domainIdByLabel_None facetIdByLabel_None)

lemma sociability_label: "facetIdByLabel [0x793E, 0x4EA4, 0x6027] = Some sociability"
  by (simp add: facetIdByLabel_def buildIdByLabelMap_def facetDefinitions_def)

lemma constructor_unknown: "domainIdByLabel (ascii ''constructor'') = None"
  by (simp add: domainIdByLabel_def buildIdByLabelMap_def domainDefinitions_def ascii_def)

text \<open>
  Normalization fails exactly when some raw item has a label that is neither a label of
  the definition list nor the name of a member of \<^verbatim>\<open>Object.prototype\<close>; on failure
  the value is the error and no list. A label that no definition has, such as the one of
  the specification's scenario, is rejected.
\<close>

lemma unknown_label_example:
  "normalizeItems [\<lparr>RawItem.number = 1, itemText = [],
       domain = [0x5B58, 0x5728, 0x3057, 0x306A, 0x3044],
       facet = [0x793E, 0x4EA4, 0x6027], reverse = False\<rparr>]
     = Inl (UnknownDomainLabel [0x5B58, 0x5728, 0x3057, 0x306A, 0x3044])"
  by (simp add: normalizeItems_def getProperty_def domainIdByLabel_def buildIdByLabelMap_def
      domainDefinitions_def objectPrototypeKeys_def ascii_def)

text \<open>
  C4. Normalization is meant to fail whenever a domain or facet label is none of the
  fixed labels. The raw item whose domain label is \<^verbatim>\<open>constructor\<close> has no known domain
  label, yet normalization of the list that holds it raises nothing: the lookup
  \<^verbatim>\<open>domainIdByLabel["constructor"]\<close> returns the inherited member, the test
  \<^verbatim>\<open>!domainId\<close> is false, and a normalized item is produced whose \<^verbatim>\<open>domainId\<close> is no
  domain id.
\<close>

theorem normalizeItems_accepts_inherited_name:
  "\<not> knownDomainLabel (RawItem.domain inheritedRawItem)
   \<and> normalizeItems [inheritedRawItem] =
       Inr [\<lparr>number = 1, itemText = [], domainId = Inherited (ascii ''constructor''),
             facetId = Own sociability, reverse = False\<rparr>]"
  by (simp add: knownDomainLabel_def domainDefinitions_def normalizeItems_def
      inheritedRawItem_def getProperty_def sociability_label constructor_unknown
      objectPrototypeKeys_def)
     (simp add: ascii_def)

section \<open>Scoring\<close>

subsection \<open>Sums and counts of the accumulation loops\<close>

lemma createZeroDomainMap_zero: "createZeroDomainMap d = Some 0"
  by (cases d) (simp_all add: createZeroDomainMap_def buildZeroMap_def domainDefinitions_def)

lemma createZeroFacetMap_zero: "createZeroFacetMap f = Some 0"
  by (cases f) (simp_all add: createZeroFacetMap_def buildZeroMap_def facetDefinitions_def)

lemma scoreSum_Nil: "scoreSum resp [] = 0"
  by (simp add: scoreSum_def)

lemma scoreSum_Cons:
  "scoreSum resp (item # its) =
     (if answered resp item then effectiveScore item (ratingOf resp item) else 0)
     + scoreSum resp its"
  by (simp add: scoreSum_def)

lemma addAt_other: "key \<noteq> Own i \<Longrightarrow> addAt m key v i = m i"
  by (cases key) (auto simp: addAt_def)

lemma addAt_same: "m i = Some x \<Longrightarrow> addAt m (Own i) v i = Some (x + real_of_int v)"
  by (simp add: addAt_def num_add_def)

text \<open>One step of the accumulation loop, for a skipped and for a counted item.\<close>

lemma accumulate_skip:
  "\<not> answered resp item \<Longrightarrow>
     accumulate (item # rest) resp totals = accumulate rest resp totals"
  by (auto simp: answered_def split: option.splits)

lemma accumulate_count:
  "answered resp item \<Longrightarrow>
     accumulate (item # rest) resp totals =
       accumulate rest resp
         \<lparr>Totals.domains = addAt (Totals.domains totals) (domainId item)
                              (effectiveScore item (ratingOf resp item)),
          Totals.facets = addAt (Totals.facets totals) (facetId item)
                             (effectiveScore item (ratingOf resp item))\<rparr>"
  by (auto simp: answered_def effectiveScore_def ratingOf_def reverseScore_def
      REVERSE_BASE_def Let_def split: option.splits)

lemma accumulate_domains:
  "Totals.domains totals d = Some x \<Longrightarrow>
     Totals.domains (accumulate items resp totals) d =
       Some (x + real_of_int (scoreSum resp (itemsOfDomain items d)))"
proof (induction items arbitrary: totals x)
  case Nil
  then show ?case by (simp add: itemsOfDomain_def scoreSum_Nil)
next
  case (Cons item rest)
  show ?case
  proof (cases "answered resp item")
    case False
    then show ?thesis
      using Cons by (simp add: accumulate_skip itemsOfDomain_def scoreSum_Cons del: accumulate.simps)
  next
    case True
    show ?thesis
    proof (cases "domainId item = Own d")
      case own: True
      show ?thesis
        unfolding accumulate_count [OF True]
        using own True Cons.prems
        by (subst Cons.IH [where x = "x + real_of_int (effectiveScore item (ratingOf resp item))"])
          (simp_all add: addAt_same itemsOfDomain_def scoreSum_Cons)
    next
      case other: False
      show ?thesis
        unfolding accumulate_count [OF True]
        using other Cons.prems
        by (subst Cons.IH [where x = x]) (simp_all add: addAt_other itemsOfDomain_def)
    qed
  qed
qed

lemma accumulate_facets:
  "Totals.facets totals f = Some x \<Longrightarrow>
     Totals.facets (accumulate items resp totals) f =
       Some (x + real_of_int (scoreSum resp (itemsOfFacet items f)))"
proof (induction items arbitrary: totals x)
  case Nil
  then show ?case by (simp add: itemsOfFacet_def scoreSum_Nil)
next
  case (Cons item rest)
  show ?case
  proof (cases "answered resp item")
    case False
    then show ?thesis
      using Cons by (simp add: accumulate_skip itemsOfFacet_def scoreSum_Cons del: accumulate.simps)
  next
    case True
    show ?thesis
    proof (cases "facetId item = Own f")
      case own: True
      show ?thesis
        unfolding accumulate_count [OF True]
        using own True Cons.prems
        by (subst Cons.IH [where x = "x + real_of_int (effectiveScore item (ratingOf resp item))"])
          (simp_all add: addAt_same itemsOfFacet_def scoreSum_Cons)
    next
      case other: False
      show ?thesis
        unfolding accumulate_count [OF True]
        using other Cons.prems
        by (subst Cons.IH [where x = x]) (simp_all add: addAt_other itemsOfFacet_def)
    qed
  qed
qed

lemma createItemStats_loop_domains:
  "domainCounts acc d = Some x \<Longrightarrow>
     domainCounts (createItemStats_loop items acc) d =
       Some (x + real (length (itemsOfDomain items d)))"
proof (induction items arbitrary: acc x)
  case Nil
  then show ?case by (simp add: itemsOfDomain_def)
next
  case (Cons item rest)
  show ?case
  proof (cases "domainId item = Own d")
    case True
    then show ?thesis
      using Cons.prems
      by (simp add: Cons.IH [where x = "x + 1"] addAt_same itemsOfDomain_def)
  next
    case False
    then show ?thesis
      using Cons.prems by (simp add: Cons.IH [where x = x] addAt_other itemsOfDomain_def)
  qed
qed

lemma createItemStats_loop_facets:
  "facetCounts acc f = Some x \<Longrightarrow>
     facetCounts (createItemStats_loop items acc) f =
       Some (x + real (length (itemsOfFacet items f)))"
proof (induction items arbitrary: acc x)
  case Nil
  then show ?case by (simp add: itemsOfFacet_def)
next
  case (Cons item rest)
  show ?case
  proof (cases "facetId item = Own f")
    case True
    then show ?thesis
      using Cons.prems
      by (simp add: Cons.IH [where x = "x + 1"] addAt_same itemsOfFacet_def)
  next
    case False
    then show ?thesis
      using Cons.prems by (simp add: Cons.IH [where x = x] addAt_other itemsOfFacet_def)
  qed
qed

lemma domainTotals:
  "Totals.domains (accumulate items resp createInitialTotals) d =
     Some (real_of_int (scoreSum resp (itemsOfDomain items d)))"
  using accumulate_domains [of createInitialTotals d 0 items resp]
  by (simp add: createInitialTotals_def createZeroDomainMap_zero)

lemma facetTotals:
  "Totals.facets (accumulate items resp createInitialTotals) f =
     Some (real_of_int (scoreSum resp (itemsOfFacet items f)))"
  using accumulate_facets [of createInitialTotals f 0 items resp]
  by (simp add: createInitialTotals_def createZeroFacetMap_zero)

lemma domainCounts_length:
  "domainCounts (createItemStats items) d = Some (real (length (itemsOfDomain items d)))"
  using createItemStats_loop_domains
    [of "\<lparr>domainCounts = createZeroDomainMap, facetCounts = createZeroFacetMap\<rparr>" d 0 items]
  by (simp add: createItemStats_def createZeroDomainMap_zero)

lemma facetCounts_length:
  "facetCounts (createItemStats items) f = Some (real (length (itemsOfFacet items f)))"
  using createItemStats_loop_facets
    [of "\<lparr>domainCounts = createZeroDomainMap, facetCounts = createZeroFacetMap\<rparr>" f 0 items]
  by (simp add: createItemStats_def createZeroFacetMap_zero)

text \<open>The average that an entry of the summary holds.\<close>

lemma calculateAverage_finite:
  "calculateAverage (Some t) (Some c) = Some (if c = 0 then 0 else roundToDouble (t / c))"
  by (simp add: calculateAverage_def num_div_def)

lemma scoreEntries_member:
  "e \<in> set (scoreEntries definitions sumOf countOf) \<Longrightarrow>
     entryValue e = calculateAverage (sumOf (entryId e)) (countOf (entryId e))
     \<and> (entryId e, entryLabel e) \<in> set definitions"
  by (auto simp: scoreEntries_def)

lemma scoreEntries_ids:
  "map entryId (scoreEntries definitions sumOf countOf) = map fst definitions"
  by (simp add: scoreEntries_def)

lemma scoreEntries_labels:
  "map entryLabel (scoreEntries definitions sumOf countOf) = map snd definitions"
  by (simp add: scoreEntries_def)

lemma result_allAnswered:
  "allAnswered items resp \<Longrightarrow>
     result items resp =
       Some \<lparr>ScoreSummary.domains =
               scoreEntries domainDefinitions
                 (Totals.domains (accumulate items resp createInitialTotals))
                 (domainCounts (createItemStats items)),
             ScoreSummary.facets =
               scoreEntries facetDefinitions
                 (Totals.facets (accumulate items resp createInitialTotals))
                 (facetCounts (createItemStats items))\<rparr>"
  by (simp add: result_def Let_def)

lemma result_domain_entry:
  assumes "result items resp = Some summary" and "e \<in> set (ScoreSummary.domains summary)"
  shows "entryValue e =
      calculateAverage (Some (real_of_int (scoreSum resp (itemsOfDomain items (entryId e)))))
        (Some (real (length (itemsOfDomain items (entryId e)))))"
proof -
  have "allAnswered items resp"
    using assms(1) by (auto simp: result_def split: if_splits)
  from result_allAnswered [OF this] assms
  have "e \<in> set (scoreEntries domainDefinitions
                 (Totals.domains (accumulate items resp createInitialTotals))
                 (domainCounts (createItemStats items)))"
    by auto
  from scoreEntries_member [OF this] show ?thesis
    by (simp add: domainTotals domainCounts_length)
qed

lemma result_facet_entry:
  assumes "result items resp = Some summary" and "e \<in> set (ScoreSummary.facets summary)"
  shows "entryValue e =
      calculateAverage (Some (real_of_int (scoreSum resp (itemsOfFacet items (entryId e)))))
        (Some (real (length (itemsOfFacet items (entryId e)))))"
proof -
  have "allAnswered items resp"
    using assms(1) by (auto simp: result_def split: if_splits)
  from result_allAnswered [OF this] assms
  have "e \<in> set (scoreEntries facetDefinitions
                 (Totals.facets (accumulate items resp createInitialTotals))
                 (facetCounts (createItemStats items)))"
    by auto
  from scoreEntries_member [OF this] show ?thesis
    by (simp add: facetTotals facetCounts_length)
qed

subsection \<open>Complete response sets\<close>

lemma complete_allAnswered:
  assumes "distinct (map number items)" and "complete items resp"
  shows "allAnswered items resp"
proof -
  have "card (dom resp) = card (set (map number items))"
    using assms(2) by (simp add: complete_def)
  also have "\<dots> = length items"
    using distinct_card [OF assms(1)] by simp
  finally show ?thesis by (simp add: allAnswered_def totalItems_def)
qed

lemma complete_answered:
  assumes "complete items resp" and "item \<in> set items"
  shows "answered resp item \<and> 1 \<le> ratingOf resp item \<and> ratingOf resp item \<le> 5"
  using assms
  by (auto simp: complete_def list_all_iff answered_def ratingOf_def split: option.splits)

lemma effectiveScore_range:
  "1 \<le> r \<and> r \<le> 5 \<Longrightarrow> 1 \<le> effectiveScore item r \<and> effectiveScore item r \<le> 5"
  by (simp add: effectiveScore_def)

lemma scoreSum_all_answered:
  "\<forall>item \<in> set its. answered resp item \<Longrightarrow>
     scoreSum resp its = sum_list (effectiveScores resp its)"
  by (simp add: scoreSum_def effectiveScores_def)

lemma sum_list_range:
  "\<forall>x \<in> set xs. (1::int) \<le> x \<and> x \<le> 5 \<Longrightarrow>
     int (length xs) \<le> sum_list xs \<and> sum_list xs \<le> 5 * int (length xs)"
  by (induction xs) auto

lemma mean_range:
  assumes "xs \<noteq> []" and "\<forall>x \<in> set xs. (1::int) \<le> x \<and> x \<le> 5"
  shows "1 \<le> mean xs \<and> mean xs \<le> 5"
proof -
  have len: "0 < real (length xs)" using assms(1) by simp
  from sum_list_range [OF assms(2)]
  have "real (length xs) \<le> real_of_int (sum_list xs)"
    and "real_of_int (sum_list xs) \<le> 5 * real (length xs)"
    by linarith+
  then show ?thesis
    using len by (simp add: mean_def pos_le_divide_eq pos_divide_le_eq)
qed

lemma complete_scores_range:
  assumes "complete items resp" and "set its \<subseteq> set items"
  shows "\<forall>x \<in> set (effectiveScores resp its). 1 \<le> x \<and> x \<le> 5"
  using assms complete_answered effectiveScore_range
  by (fastforce simp: effectiveScores_def)

lemma complete_average:
  assumes "complete items resp" and "set its \<subseteq> set items" and "its \<noteq> []"
  shows "calculateAverage (Some (real_of_int (scoreSum resp its))) (Some (real (length its)))
      = Some (roundToDouble (mean (effectiveScores resp its)))"
proof -
  have "\<forall>item \<in> set its. answered resp item"
    using assms(1,2) complete_answered by blast
  then have "scoreSum resp its = sum_list (effectiveScores resp its)"
    by (rule scoreSum_all_answered)
  then show ?thesis
    using assms(3) by (simp add: calculateAverage_finite mean_def effectiveScores_def)
qed

lemma domain_has_entry: "d \<in> set (map fst domainDefinitions)"
  by (cases d) (simp_all add: domainDefinitions_def)

lemma facet_has_entry: "f \<in> set (map fst facetDefinitions)"
  by (cases f) (simp_all add: facetDefinitions_def)

lemma result_ids:
  assumes "result items resp = Some summary"
  shows "map entryId (ScoreSummary.domains summary) = map fst domainDefinitions"
    and "map entryId (ScoreSummary.facets summary) = map fst facetDefinitions"
    and "map entryLabel (ScoreSummary.domains summary) = map snd domainDefinitions"
    and "map entryLabel (ScoreSummary.facets summary) = map snd facetDefinitions"
proof -
  have "allAnswered items resp"
    using assms by (auto simp: result_def split: if_splits)
  from result_allAnswered [OF this] assms
  show "map entryId (ScoreSummary.domains summary) = map fst domainDefinitions"
    and "map entryId (ScoreSummary.facets summary) = map fst facetDefinitions"
    and "map entryLabel (ScoreSummary.domains summary) = map snd domainDefinitions"
    and "map entryLabel (ScoreSummary.facets summary) = map snd facetDefinitions"
    by (auto simp: scoreEntries_ids scoreEntries_labels)
qed

lemma example_complete:
  "distinct (map number exampleItems)" "complete exampleItems exampleResponses"
  by (auto simp: exampleItems_def exampleResponses_def complete_def)

lemma example_mean:
  "itemsOfDomain exampleItems extraversion = exampleItems"
  "itemsOfFacet exampleItems sociability = exampleItems"
  "mean (effectiveScores exampleResponses exampleItems) = 4"
  by (simp_all add: exampleItems_def exampleResponses_def itemsOfDomain_def itemsOfFacet_def
      mean_def effectiveScores_def effectiveScore_def ratingOf_def)

lemma example_result:
  "\<exists>summary. result exampleItems exampleResponses = Some summary"
  using complete_allAnswered [OF example_complete] by (simp add: result_allAnswered)

lemma result_not_allAnswered: "\<not> allAnswered items resp \<Longrightarrow> result items resp = None"
  by (simp add: result_def)

text \<open>
  C1, as the code has it. For a catalog with unique item numbers and every complete
  response set (exactly one rating from 1 to 5 per item number of the catalog), the
  score summary is computed and has an entry for every Domain and every Facet; the
  entry of a category with at least one item holds the arithmetic mean of the effective
  scores (the rating, or 6 minus the rating for a reverse item) of the items of that
  category, rounded to the nearest double, and this value lies between 1 and 5.
\<close>

theorem complete_scores_are_rounded_means:
  assumes "distinct (map number items)" and "complete items resp"
  shows "\<exists>summary. result items resp = Some summary
    \<and> (\<forall>d. \<exists>e \<in> set (ScoreSummary.domains summary). entryId e = d)
    \<and> (\<forall>f. \<exists>e \<in> set (ScoreSummary.facets summary). entryId e = f)
    \<and> (\<forall>e \<in> set (ScoreSummary.domains summary).
          itemsOfDomain items (entryId e) \<noteq> [] \<longrightarrow>
            entryValue e =
              Some (roundToDouble (mean (effectiveScores resp (itemsOfDomain items (entryId e)))))
            \<and> 1 \<le> roundToDouble (mean (effectiveScores resp (itemsOfDomain items (entryId e))))
            \<and> roundToDouble (mean (effectiveScores resp (itemsOfDomain items (entryId e)))) \<le> 5)
    \<and> (\<forall>e \<in> set (ScoreSummary.facets summary).
          itemsOfFacet items (entryId e) \<noteq> [] \<longrightarrow>
            entryValue e =
              Some (roundToDouble (mean (effectiveScores resp (itemsOfFacet items (entryId e)))))
            \<and> 1 \<le> roundToDouble (mean (effectiveScores resp (itemsOfFacet items (entryId e))))
            \<and> roundToDouble (mean (effectiveScores resp (itemsOfFacet items (entryId e)))) \<le> 5)"
proof -
  from complete_allAnswered [OF assms] obtain summary
    where summary: "result items resp = Some summary"
    by (simp add: result_allAnswered)
  have domains_present: "\<exists>e \<in> set (ScoreSummary.domains summary). entryId e = d" for d
  proof -
    have "d \<in> set (map entryId (ScoreSummary.domains summary))"
      using result_ids(1) [OF summary] domain_has_entry by simp
    then show ?thesis by auto
  qed
  have facets_present: "\<exists>e \<in> set (ScoreSummary.facets summary). entryId e = f" for f
  proof -
    have "f \<in> set (map entryId (ScoreSummary.facets summary))"
      using result_ids(2) [OF summary] facet_has_entry by simp
    then show ?thesis by auto
  qed
  have rounded: "v = Some (roundToDouble (mean (effectiveScores resp its)))
      \<and> 1 \<le> roundToDouble (mean (effectiveScores resp its))
      \<and> roundToDouble (mean (effectiveScores resp its)) \<le> 5"
    if v: "v = calculateAverage (Some (real_of_int (scoreSum resp its)))
        (Some (real (length its)))"
      and sub: "set its \<subseteq> set items" and ne: "its \<noteq> []" for v its
  proof -
    have "effectiveScores resp its \<noteq> []"
      using ne by (simp add: effectiveScores_def)
    then have "1 \<le> mean (effectiveScores resp its) \<and> mean (effectiveScores resp its) \<le> 5"
      using mean_range complete_scores_range [OF assms(2) sub] by blast
    then have "1 \<le> roundToDouble (mean (effectiveScores resp its))
        \<and> roundToDouble (mean (effectiveScores resp its)) \<le> 5"
      using roundToDouble_range by blast
    then show ?thesis
      unfolding v complete_average [OF assms(2) sub ne] by simp
  qed
  show ?thesis
  proof (rule exI [of _ summary], intro conjI allI ballI impI)
    show "result items resp = Some summary" by fact
  next
    fix d show "\<exists>e \<in> set (ScoreSummary.domains summary). entryId e = d"
      by (rule domains_present)
  next
    fix f show "\<exists>e \<in> set (ScoreSummary.facets summary). entryId e = f"
      by (rule facets_present)
  next
    fix e
    assume e: "e \<in> set (ScoreSummary.domains summary)"
      and ne: "itemsOfDomain items (entryId e) \<noteq> []"
    have sub: "set (itemsOfDomain items (entryId e)) \<subseteq> set items"
      by (auto simp: itemsOfDomain_def)
    note r = rounded [OF result_domain_entry [OF summary e] sub ne]
    from r show "entryValue e =
        Some (roundToDouble (mean (effectiveScores resp (itemsOfDomain items (entryId e)))))"
      by (rule conjunct1)
    from r show "1 \<le> roundToDouble (mean (effectiveScores resp (itemsOfDomain items (entryId e))))"
      by simp
    from r show "roundToDouble (mean (effectiveScores resp (itemsOfDomain items (entryId e)))) \<le> 5"
      by simp
  next
    fix e
    assume e: "e \<in> set (ScoreSummary.facets summary)"
      and ne: "itemsOfFacet items (entryId e) \<noteq> []"
    have sub: "set (itemsOfFacet items (entryId e)) \<subseteq> set items"
      by (auto simp: itemsOfFacet_def)
    note r = rounded [OF result_facet_entry [OF summary e] sub ne]
    from r show "entryValue e =
        Some (roundToDouble (mean (effectiveScores resp (itemsOfFacet items (entryId e)))))"
      by (rule conjunct1)
    from r show "1 \<le> roundToDouble (mean (effectiveScores resp (itemsOfFacet items (entryId e))))"
      by simp
    from r show "roundToDouble (mean (effectiveScores resp (itemsOfFacet items (entryId e)))) \<le> 5"
      by simp
  qed
qed

theorem complete_scores_are_rounded_means_witness:
  "\<exists>summary. result exampleItems exampleResponses = Some summary
     \<and> (\<exists>e \<in> set (ScoreSummary.domains summary). entryId e = extraversion \<and> entryValue e = Some 4)
     \<and> (\<exists>e \<in> set (ScoreSummary.facets summary). entryId e = sociability \<and> entryValue e = Some 4)"
proof -
  from complete_scores_are_rounded_means [OF example_complete] obtain summary
    where s: "result exampleItems exampleResponses = Some summary"
      and d: "\<exists>e \<in> set (ScoreSummary.domains summary). entryId e = extraversion"
      and f: "\<exists>e \<in> set (ScoreSummary.facets summary). entryId e = sociability"
      and dv: "\<forall>e \<in> set (ScoreSummary.domains summary).
          itemsOfDomain exampleItems (entryId e) \<noteq> [] \<longrightarrow>
            entryValue e = Some (roundToDouble (mean (effectiveScores exampleResponses
              (itemsOfDomain exampleItems (entryId e)))))"
      and fv: "\<forall>e \<in> set (ScoreSummary.facets summary).
          itemsOfFacet exampleItems (entryId e) \<noteq> [] \<longrightarrow>
            entryValue e = Some (roundToDouble (mean (effectiveScores exampleResponses
              (itemsOfFacet exampleItems (entryId e)))))"
    by blast
  have nonempty: "exampleItems \<noteq> []" by (simp add: exampleItems_def)
  from d obtain e where e: "e \<in> set (ScoreSummary.domains summary)" "entryId e = extraversion"
    by blast
  from dv [rule_format, OF e(1)] e(2) nonempty have "entryValue e = Some 4"
    by (simp add: example_mean roundToDouble_four)
  with e have dom: "\<exists>e \<in> set (ScoreSummary.domains summary).
      entryId e = extraversion \<and> entryValue e = Some 4"
    by blast
  from f obtain g where g: "g \<in> set (ScoreSummary.facets summary)" "entryId g = sociability"
    by blast
  from fv [rule_format, OF g(1)] g(2) nonempty have "entryValue g = Some 4"
    by (simp add: example_mean roundToDouble_four)
  with g have fac: "\<exists>e \<in> set (ScoreSummary.facets summary).
      entryId e = sociability \<and> entryValue e = Some 4"
    by blast
  from s dom fac show ?thesis by blast
qed

text \<open>
  The claim with the exact mean fails: for the three items rated 2, 2 and 3 the mean
  is \<open>7/3\<close>, and the entry holds the double next to it, \<open>5254199565265579 / 2^51\<close>
  (printed as 2.3333333333333335).
\<close>

theorem complete_scores_counterexample:
  "distinct (map number thirdsItems) \<and> complete thirdsItems thirdsResponses
   \<and> mean (effectiveScores thirdsResponses (itemsOfDomain thirdsItems extraversion)) = 7 / 3
   \<and> (\<exists>summary. result thirdsItems thirdsResponses = Some summary
        \<and> (\<exists>e \<in> set (ScoreSummary.domains summary).
              entryId e = extraversion
              \<and> entryValue e = Some (5254199565265579 / 2 ^ 51)
              \<and> entryValue e \<noteq> Some (7 / 3)))"
proof -
  have d: "distinct (map number thirdsItems)"
    by (simp add: thirdsItems_def)
  have c: "complete thirdsItems thirdsResponses"
    by (auto simp: thirdsItems_def thirdsResponses_def complete_def)
  have its: "itemsOfDomain thirdsItems extraversion = thirdsItems"
    by (simp add: thirdsItems_def itemsOfDomain_def)
  have m: "mean (effectiveScores thirdsResponses (itemsOfDomain thirdsItems extraversion)) = 7 / 3"
    unfolding its
    by (simp add: thirdsItems_def thirdsResponses_def mean_def effectiveScores_def
        effectiveScore_def ratingOf_def)
  from complete_allAnswered [OF d c] obtain summary
    where s: "result thirdsItems thirdsResponses = Some summary"
    by (simp add: result_allAnswered)
  have "extraversion \<in> set (map entryId (ScoreSummary.domains summary))"
    using result_ids(1) [OF s] domain_has_entry by simp
  then obtain e where e: "e \<in> set (ScoreSummary.domains summary)" "entryId e = extraversion"
    by auto
  have sub: "set thirdsItems \<subseteq> set thirdsItems" and ne: "thirdsItems \<noteq> []"
    by (simp_all add: thirdsItems_def)
  have "entryValue e = Some (roundToDouble (7 / 3))"
    using result_domain_entry [OF s e(1)] complete_average [OF c sub ne] m
    unfolding e(2) its by simp
  then have v: "entryValue e = Some (5254199565265579 / 2 ^ 51)"
    by (simp add: roundToDouble_seven_thirds)
  then have "entryValue e \<noteq> Some (7 / 3)" by simp
  with v e have "\<exists>e \<in> set (ScoreSummary.domains summary).
      entryId e = extraversion
      \<and> entryValue e = Some (5254199565265579 / 2 ^ 51)
      \<and> entryValue e \<noteq> Some (7 / 3)"
    by blast
  with s have "\<exists>summary. result thirdsItems thirdsResponses = Some summary
      \<and> (\<exists>e \<in> set (ScoreSummary.domains summary).
            entryId e = extraversion
            \<and> entryValue e = Some (5254199565265579 / 2 ^ 51)
            \<and> entryValue e \<noteq> Some (7 / 3))"
    by blast
  with d c m show ?thesis by (intro conjI)
qed

text \<open>
  C3. \<open>calculateAverage\<close> returns 0 for the count 0 whatever the sum is, and a finite
  number for every finite sum and count: the quotient is formed for a nonzero count
  only. In every computed summary each entry holds a finite number, and the entry of a
  Domain or Facet whose item count in the catalog is 0 holds exactly 0.
\<close>

theorem zero_count_average_is_zero:
  assumes "result items resp = Some summary"
  shows "calculateAverage sumValue (Some 0) = Some 0
    \<and> calculateAverage (Some t) (Some c) \<noteq> None
    \<and> (\<forall>e \<in> set (ScoreSummary.domains summary).
          entryValue e \<noteq> None
          \<and> (domainCounts (createItemStats items) (entryId e) = Some 0 \<longrightarrow> entryValue e = Some 0))
    \<and> (\<forall>e \<in> set (ScoreSummary.facets summary).
          entryValue e \<noteq> None
          \<and> (facetCounts (createItemStats items) (entryId e) = Some 0 \<longrightarrow> entryValue e = Some 0))"
proof -
  have "calculateAverage sumValue (Some 0) = Some 0"
    by (simp add: calculateAverage_def)
  moreover have "calculateAverage (Some t) (Some c) \<noteq> None"
    by (simp add: calculateAverage_finite)
  moreover have "entryValue e \<noteq> None
      \<and> (domainCounts (createItemStats items) (entryId e) = Some 0 \<longrightarrow> entryValue e = Some 0)"
    if "e \<in> set (ScoreSummary.domains summary)" for e
    using result_domain_entry [OF assms that]
    by (simp add: calculateAverage_finite domainCounts_length)
  moreover have "entryValue e \<noteq> None
      \<and> (facetCounts (createItemStats items) (entryId e) = Some 0 \<longrightarrow> entryValue e = Some 0)"
    if "e \<in> set (ScoreSummary.facets summary)" for e
    using result_facet_entry [OF assms that]
    by (simp add: calculateAverage_finite facetCounts_length)
  ultimately show ?thesis by simp
qed

theorem zero_count_average_is_zero_witness:
  "\<exists>summary. result exampleItems exampleResponses = Some summary
     \<and> domainCounts (createItemStats exampleItems) openness = Some 0
     \<and> (\<exists>e \<in> set (ScoreSummary.domains summary). entryId e = openness \<and> entryValue e = Some 0)"
proof -
  from example_result obtain summary
    where s: "result exampleItems exampleResponses = Some summary" ..
  have "openness \<in> set (map entryId (ScoreSummary.domains summary))"
    using result_ids(1) [OF s] domain_has_entry by simp
  then obtain e where e: "e \<in> set (ScoreSummary.domains summary)" "entryId e = openness"
    by auto
  have zero: "domainCounts (createItemStats exampleItems) openness = Some 0"
    by (simp add: domainCounts_length itemsOfDomain_def exampleItems_def)
  note domains_zero = zero_count_average_is_zero
    [OF s, where sumValue = None and t = 0 and c = 0, THEN conjunct2, THEN conjunct2,
     THEN conjunct1]
  from domains_zero e zero have "entryValue e = Some 0"
    by auto
  with s e zero show ?thesis by blast
qed

text \<open>
  C10. For a catalog with unique item numbers and every complete response set, the
  summary has exactly one entry per Domain (5 entries) and one per Facet (15 entries),
  in the order of the definition lists and with their labels, whatever the ratings are.
\<close>

theorem summary_in_definition_order:
  assumes "distinct (map number items)" and "complete items resp"
  shows "\<exists>summary. result items resp = Some summary
    \<and> map entryId (ScoreSummary.domains summary) =
        [extraversion, agreeableness, conscientiousness, negativeEmotionality, openness]
    \<and> map entryId (ScoreSummary.facets summary) =
        [sociability, assertiveness, energyLevel, compassion, respectfulness, trust,
         organization, productivity, responsibility, anxiety, depression,
         emotionalVolatility, intellectualCuriosity, aestheticSensitivity,
         creativeImagination]
    \<and> map entryLabel (ScoreSummary.domains summary) = map snd domainDefinitions
    \<and> map entryLabel (ScoreSummary.facets summary) = map snd facetDefinitions
    \<and> length (ScoreSummary.domains summary) = 5
    \<and> length (ScoreSummary.facets summary) = 15"
proof -
  from complete_allAnswered [OF assms] obtain summary
    where summary: "result items resp = Some summary"
    by (simp add: result_allAnswered)
  note ids = result_ids [OF summary]
  have "length (ScoreSummary.domains summary) = length (map fst domainDefinitions)"
    using ids(1) by (metis length_map)
  then have five: "length (ScoreSummary.domains summary) = 5"
    by (simp add: domainDefinitions_def)
  have "length (ScoreSummary.facets summary) = length (map fst facetDefinitions)"
    using ids(2) by (metis length_map)
  then have fifteen: "length (ScoreSummary.facets summary) = 15"
    by (simp add: facetDefinitions_def)
  have domainIds: "map fst domainDefinitions =
      [extraversion, agreeableness, conscientiousness, negativeEmotionality, openness]"
    by (simp add: domainDefinitions_def)
  have facetIds: "map fst facetDefinitions =
      [sociability, assertiveness, energyLevel, compassion, respectfulness, trust,
       organization, productivity, responsibility, anxiety, depression,
       emotionalVolatility, intellectualCuriosity, aestheticSensitivity,
       creativeImagination]"
    by (simp add: facetDefinitions_def)
  show ?thesis
  proof (rule exI [of _ summary], intro conjI)
    show "result items resp = Some summary" by fact
    show "map entryId (ScoreSummary.domains summary) =
        [extraversion, agreeableness, conscientiousness, negativeEmotionality, openness]"
      using ids(1) domainIds by simp
    show "map entryId (ScoreSummary.facets summary) =
        [sociability, assertiveness, energyLevel, compassion, respectfulness, trust,
         organization, productivity, responsibility, anxiety, depression,
         emotionalVolatility, intellectualCuriosity, aestheticSensitivity,
         creativeImagination]"
      using ids(2) facetIds by simp
    show "map entryLabel (ScoreSummary.domains summary) = map snd domainDefinitions"
      by (rule ids(3))
    show "map entryLabel (ScoreSummary.facets summary) = map snd facetDefinitions"
      by (rule ids(4))
    show "length (ScoreSummary.domains summary) = 5" by (rule five)
    show "length (ScoreSummary.facets summary) = 15" by (rule fifteen)
  qed
qed

theorem summary_in_definition_order_witness:
  "\<exists>summary. result exampleItems exampleResponses = Some summary
     \<and> map entryId (ScoreSummary.domains summary) =
         [extraversion, agreeableness, conscientiousness, negativeEmotionality, openness]
     \<and> length (ScoreSummary.facets summary) = 15"
proof -
  from summary_in_definition_order [OF example_complete] obtain summary
    where "result exampleItems exampleResponses = Some summary"
      and "map entryId (ScoreSummary.domains summary) =
         [extraversion, agreeableness, conscientiousness, negativeEmotionality, openness]"
      and "length (ScoreSummary.facets summary) = 15"
    by (elim exE conjE)
  then show ?thesis by (intro exI conjI)
qed

subsection \<open>Responses that are missing\<close>

lemma skipped_bias:
  assumes "ratingsInRange resp its" and "length its < 2 ^ 32"
    and "filter (answered resp) its \<noteq> its"
  shows "biasedDownward resp its
      (calculateAverage (Some (real_of_int (scoreSum resp its))) (Some (real (length its))))"
proof -
  let ?given = "filter (answered resp) its"
  obtain item where "item \<in> set its" "\<not> answered resp item"
    using assms(3) by (auto simp: filter_id_conv)
  then have less: "length ?given < length its"
    by (rule length_filter_less)
  then have pos: "0 < length its" by (cases its) simp_all
  have val: "calculateAverage (Some (real_of_int (scoreSum resp its))) (Some (real (length its)))
      = Some (roundToDouble (real_of_int (scoreSum resp its) / real (length its)))"
    using pos by (simp add: calculateAverage_finite)
  have sum: "scoreSum resp its = sum_list (effectiveScores resp ?given)"
    by (simp add: scoreSum_def effectiveScores_def)
  show ?thesis
  proof (cases "?given = []")
    case True
    then have "scoreSum resp its = 0" by (simp add: sum effectiveScores_def)
    then show ?thesis
      unfolding val using True by (simp add: biasedDownward_def roundToDouble_zero)
  next
    case False
    have "\<forall>x \<in> set (effectiveScores resp ?given). 1 \<le> x \<and> x \<le> 5"
    proof
      fix x assume "x \<in> set (effectiveScores resp ?given)"
      then obtain it where it: "it \<in> set its" "answered resp it"
        and x: "x = effectiveScore it (ratingOf resp it)"
        by (auto simp: effectiveScores_def)
      have "1 \<le> ratingOf resp it \<and> ratingOf resp it \<le> 5"
        using assms(1) it
        by (auto simp: ratingsInRange_def list_all_iff answered_def ratingOf_def
            split: option.splits)
      then show "1 \<le> x \<and> x \<le> 5"
        unfolding x by (rule effectiveScore_range)
    qed
    from sum_list_range [OF this]
    have "int (length ?given) \<le> sum_list (effectiveScores resp ?given)"
      by (simp add: effectiveScores_def)
    moreover have given: "0 < length ?given" using False by simp
    ultimately have spos: "0 < scoreSum resp its"
      unfolding sum by linarith
    have "roundToDouble (real_of_int (scoreSum resp its) / real (length its))
        < real_of_int (scoreSum resp its) / real (length ?given)"
      using spos given less assms(2) by (rule rounded_quotient_below)
    then show ?thesis
      unfolding val using False
      by (simp add: biasedDownward_def mean_def sum effectiveScores_def)
  qed
qed

lemma skipsUnanswered_average:
  assumes "v = calculateAverage (Some (real_of_int (scoreSum resp its))) (Some (real (length its)))"
    and "set its \<subseteq> set items" and "length its \<le> length items"
  shows "skipsUnanswered items resp its v"
proof -
  have "ratingsInRange resp its" if "ratingsInRange resp items"
    using that assms(2) by (auto simp: ratingsInRange_def list_all_iff)
  moreover have "length its < 2 ^ 32" if "length items < 2 ^ 32"
    using that assms(3) by simp
  ultimately show ?thesis
    unfolding skipsUnanswered_def assms(1) using skipped_bias by blast
qed

text \<open>
  C8, as the code has it. The only test of the response input is the count test
  \<open>allAnswered\<close> (as many response keys as catalog items): when it fails no summary is
  computed (the value is \<^verbatim>\<open>null\<close>, not an error). When it passes nothing else is
  tested: the value of every entry is the sum of the effective scores of the answered
  items of the category, divided by the number of all its items, so an item without a
  response is skipped while the denominator stays at the full count; with recorded
  ratings from 1 to 5 and a catalog of fewer than \<open>2^32\<close> items (the bound of every
  JavaScript array), the average of a category with a skipped item lies below the mean
  of its answered items (and is 0 when none is answered).
\<close>

theorem unanswered_items_are_skipped:
  "(\<not> allAnswered items resp \<longrightarrow> result items resp = None)
   \<and> (allAnswered items resp \<longrightarrow>
        (\<exists>summary. result items resp = Some summary
          \<and> (\<forall>e \<in> set (ScoreSummary.domains summary).
                skipsUnanswered items resp (itemsOfDomain items (entryId e)) (entryValue e))
          \<and> (\<forall>e \<in> set (ScoreSummary.facets summary).
                skipsUnanswered items resp (itemsOfFacet items (entryId e)) (entryValue e))))"
proof (intro conjI impI)
  assume "\<not> allAnswered items resp"
  then show "result items resp = None" by (rule result_not_allAnswered)
next
  assume "allAnswered items resp"
  then obtain summary where summary: "result items resp = Some summary"
    by (simp add: result_allAnswered)
  show "\<exists>summary. result items resp = Some summary
          \<and> (\<forall>e \<in> set (ScoreSummary.domains summary).
                skipsUnanswered items resp (itemsOfDomain items (entryId e)) (entryValue e))
          \<and> (\<forall>e \<in> set (ScoreSummary.facets summary).
                skipsUnanswered items resp (itemsOfFacet items (entryId e)) (entryValue e))"
  proof (rule exI [of _ summary], intro conjI ballI)
    show "result items resp = Some summary" by fact
  next
    fix e assume "e \<in> set (ScoreSummary.domains summary)"
    from result_domain_entry [OF summary this]
    show "skipsUnanswered items resp (itemsOfDomain items (entryId e)) (entryValue e)"
      by (rule skipsUnanswered_average) (auto simp: itemsOfDomain_def)
  next
    fix e assume "e \<in> set (ScoreSummary.facets summary)"
    from result_facet_entry [OF summary this]
    show "skipsUnanswered items resp (itemsOfFacet items (entryId e)) (entryValue e)"
      by (rule skipsUnanswered_average) (auto simp: itemsOfFacet_def)
  qed
qed

lemma stray_allAnswered: "allAnswered exampleItems strayResponses"
  by (simp add: allAnswered_def totalItems_def exampleItems_def strayResponses_def)

theorem unanswered_items_are_skipped_witness:
  "allAnswered exampleItems strayResponses
   \<and> \<not> answered strayResponses (exampleItems ! 1)
   \<and> (\<exists>summary. result exampleItems strayResponses = Some summary
        \<and> (\<exists>e \<in> set (ScoreSummary.domains summary).
              entryId e = extraversion \<and> entryValue e = Some 2))"
proof -
  note skipped = unanswered_items_are_skipped
    [of exampleItems strayResponses, THEN conjunct2, rule_format, OF stray_allAnswered]
  then obtain summary where s: "result exampleItems strayResponses = Some summary"
    and v: "\<forall>e \<in> set (ScoreSummary.domains summary).
        skipsUnanswered exampleItems strayResponses
          (itemsOfDomain exampleItems (entryId e)) (entryValue e)"
    by (elim exE conjE)
  have "extraversion \<in> set (map entryId (ScoreSummary.domains summary))"
    using result_ids(1) [OF s] domain_has_entry by simp
  then obtain e where e: "e \<in> set (ScoreSummary.domains summary)" "entryId e = extraversion"
    by auto
  have "calculateAverage
      (Some (real_of_int (scoreSum strayResponses (itemsOfDomain exampleItems extraversion))))
      (Some (real (length (itemsOfDomain exampleItems extraversion)))) = Some 2"
    by (simp add: calculateAverage_finite scoreSum_def itemsOfDomain_def exampleItems_def
        strayResponses_def answered_def effectiveScore_def ratingOf_def roundToDouble_two)
  with v e have two: "entryValue e = Some 2" by (simp add: skipsUnanswered_def)
  have missing: "\<not> answered strayResponses (exampleItems ! 1)"
    by (simp add: answered_def exampleItems_def strayResponses_def)
  from e two have "\<exists>e \<in> set (ScoreSummary.domains summary).
      entryId e = extraversion \<and> entryValue e = Some 2"
    by (intro bexI [of _ e]) simp_all
  with s have "\<exists>summary. result exampleItems strayResponses = Some summary
      \<and> (\<exists>e \<in> set (ScoreSummary.domains summary).
            entryId e = extraversion \<and> entryValue e = Some 2)"
    by (intro exI [of _ summary] conjI)
  with stray_allAnswered missing show ?thesis by (intro conjI)
qed

text \<open>
  The claim without the count test fails: for the two-item catalog and a response set
  that lacks the second item, no averages are produced at all.
\<close>

theorem unanswered_items_counterexample:
  "\<not> answered [1 \<mapsto> 4] (exampleItems ! 1) \<and> result exampleItems [1 \<mapsto> 4] = None"
  by (simp add: answered_def exampleItems_def result_def allAnswered_def totalItems_def)

section \<open>The answering flow: next, restart, navigation\<close>

text \<open>
  C5. In a state \<open>question(i)\<close> with \<open>i\<close> below the number of items, \<open>next\<close> does
  nothing when item \<open>i\<close> has no recorded rating: stage, index and responses stay as
  they are, and the handler returns a state, never an error. With a rating from 1 to 5
  recorded it moves to \<open>question(i+1)\<close>, or to the stage \<open>result\<close> when \<open>i+1\<close> is the
  number of items.
\<close>

theorem handleNext_guard:
  assumes "stage s = Question" and "currentIndex s = int i" and "i < length items"
  shows "(responses s (number (items ! i)) = None \<longrightarrow> handleNext items s = s)
    \<and> (\<forall>r. responses s (number (items ! i)) = Some r \<and> 1 \<le> r \<and> r \<le> 5 \<longrightarrow>
          handleNext items s =
            (if i + 1 = length items then s\<lparr>stage := Result\<rparr>
             else s\<lparr>currentIndex := int (i + 1)\<rparr>))"
proof -
  have cur: "currentItem items s = Some (items ! i)"
    using assms by (simp add: currentItem_def)
  show ?thesis
    using assms(2,3) by (auto simp: handleNext_def cur totalItems_def Let_def)
qed

theorem handleNext_guard_witness:
  "handleNext exampleItems \<lparr>stage = Question, currentIndex = 0, responses = [1 \<mapsto> 4]\<rparr>
     = \<lparr>stage = Question, currentIndex = 1, responses = [1 \<mapsto> 4]\<rparr>
   \<and> handleNext exampleItems \<lparr>stage = Question, currentIndex = 1, responses = [1 \<mapsto> 4]\<rparr>
     = \<lparr>stage = Question, currentIndex = 1, responses = [1 \<mapsto> 4]\<rparr>
   \<and> handleNext exampleItems \<lparr>stage = Question, currentIndex = 1, responses = [1 \<mapsto> 4, 2 \<mapsto> 2]\<rparr>
     = \<lparr>stage = Result, currentIndex = 1, responses = [1 \<mapsto> 4, 2 \<mapsto> 2]\<rparr>"
  using handleNext_guard [of "\<lparr>stage = Question, currentIndex = 0, responses = [1 \<mapsto> 4]\<rparr>" 0 exampleItems]
    handleNext_guard [of "\<lparr>stage = Question, currentIndex = 1, responses = [1 \<mapsto> 4]\<rparr>" 1 exampleItems]
    handleNext_guard [of "\<lparr>stage = Question, currentIndex = 1, responses = [1 \<mapsto> 4, 2 \<mapsto> 2]\<rparr>" 1 exampleItems]
  by (simp add: exampleItems_def)

text \<open>
  C9. \<open>restart\<close> leads to the stage \<open>intro\<close> with the index 0 and no response left,
  from every state, so from every result state whatever had been answered.
\<close>

theorem handleRestart_resets:
  "stage (handleRestart s) = Intro \<and> currentIndex (handleRestart s) = 0
     \<and> responses (handleRestart s) = Map.empty"
  by (simp add: handleRestart_def)

subsection \<open>Navigation keeps the responses\<close>

lemma handleNext_responses: "responses (handleNext items s) = responses s"
  by (simp add: handleNext_def Let_def split: option.splits)

lemma handlePrevious_responses: "responses (handlePrevious s) = responses s"
  by (simp add: handlePrevious_def Let_def)

lemma navigation_responses:
  "list_all isNavigation navs \<Longrightarrow> responses (run items s navs) = responses s"
proof (induction navs arbitrary: s)
  case Nil
  then show ?case by (simp add: run_def)
next
  case (Cons a navs)
  then have "responses (step items s a) = responses s"
    by (cases a) (simp_all add: handleNext_responses handlePrevious_responses)
  moreover have "run items s (a # navs) = run items (step items s a) navs"
    by (simp add: run_def)
  ultimately show ?case using Cons by simp
qed

text \<open>
  C7. With item numbers that are unique in the catalog: after selecting \<open>R\<close> for the
  current item \<open>i\<close> and then any sequence of \<open>next\<close> and \<open>previous\<close>, the rating
  stored for item \<open>i\<close> is \<open>R\<close>, the rating stored for every other item is what it
  was before the selection, and \<open>next\<close> and \<open>previous\<close> leave the response map as
  it is.
\<close>

theorem select_survives_navigation:
  assumes "distinct (map number items)" and "currentIndex s = int i" and "i < length items"
    and "list_all isNavigation navs"
  shows "responses (run items (handleSelect items R s) navs) (number (items ! i)) = Some R
    \<and> (\<forall>j < length items. j \<noteq> i \<longrightarrow>
          responses (run items (handleSelect items R s) navs) (number (items ! j))
            = responses s (number (items ! j)))
    \<and> responses (run items s navs) = responses s"
proof -
  have cur: "currentItem items s = Some (items ! i)"
    using assms(2,3) by (simp add: currentItem_def)
  have sel: "responses (handleSelect items R s) = (responses s)(number (items ! i) \<mapsto> R)"
    by (simp add: handleSelect_def cur)
  have nav: "responses (run items (handleSelect items R s) navs) = (responses s)(number (items ! i) \<mapsto> R)"
    using navigation_responses [OF assms(4)] sel by simp
  have other: "\<And>j. j < length items \<Longrightarrow> j \<noteq> i \<Longrightarrow> number (items ! j) \<noteq> number (items ! i)"
    using assms(1,3) by (auto simp: distinct_conv_nth)
  show ?thesis
    using nav other navigation_responses [OF assms(4)] by simp
qed

theorem select_survives_navigation_witness:
  "responses (run exampleItems
       (handleSelect exampleItems 3 \<lparr>stage = Question, currentIndex = 1, responses = [1 \<mapsto> 4]\<rparr>)
       [Previous, Next]) 2 = Some 3
   \<and> responses (run exampleItems
       (handleSelect exampleItems 3 \<lparr>stage = Question, currentIndex = 1, responses = [1 \<mapsto> 4]\<rparr>)
       [Previous, Next]) 1 = Some 4"
proof -
  let ?s = "\<lparr>stage = Question, currentIndex = 1, responses = [1 \<mapsto> 4]\<rparr>"
  let ?t = "run exampleItems (handleSelect exampleItems 3 ?s) [Previous, Next]"
  have "distinct (map number exampleItems)" and "currentIndex ?s = int 1"
    and "1 < length exampleItems" and "list_all isNavigation [Previous, Next]"
    by (simp_all add: exampleItems_def)
  from select_survives_navigation [OF this, of 3]
  have here: "responses ?t (number (exampleItems ! 1)) = Some 3"
    and others: "\<forall>j < length exampleItems. j \<noteq> 1 \<longrightarrow>
        responses ?t (number (exampleItems ! j)) = responses ?s (number (exampleItems ! j))"
    by blast+
  have "0 < length exampleItems" and "(0::nat) \<noteq> 1"
    by (simp_all add: exampleItems_def)
  from others [rule_format, OF this]
  have "responses ?t (number (exampleItems ! 0)) = responses ?s (number (exampleItems ! 0))" .
  with here show ?thesis by (simp add: exampleItems_def)
qed

subsection \<open>The result stage is reached with complete responses only\<close>

lemma invariant_initial: "invariant items initialState"
  by (simp add: invariant_def initialState_def)

lemma invariant_handleStart: "invariant items s \<Longrightarrow> invariant items (handleStart s)"
  by (simp add: invariant_def handleStart_def)

lemma invariant_handleRestart: "invariant items (handleRestart s)"
  by (simp add: invariant_def handleRestart_def)

lemma invariant_handlePrevious: "invariant items s \<Longrightarrow> invariant items (handlePrevious s)"
  by (auto simp: invariant_def handlePrevious_def Let_def)

lemma invariant_handleSelect:
  assumes "invariant items s" and "1 \<le> rating" and "rating \<le> 5"
  shows "invariant items (handleSelect items rating s)"
proof (cases "currentItem items s")
  case None
  then show ?thesis using assms by (simp add: handleSelect_def)
next
  case (Some item)
  then have "item \<in> set items"
    by (auto simp: currentItem_def split: if_splits)
  then show ?thesis
    using assms Some by (auto simp: invariant_def handleSelect_def)
qed

lemma invariant_handleNext:
  assumes "invariant items s"
  shows "invariant items (handleNext items s)"
proof (cases "currentItem items s")
  case None
  then show ?thesis using assms by (simp add: handleNext_def)
next
  case (Some item)
  then have idx: "0 \<le> currentIndex s" "currentIndex s < int (length items)"
    and item: "item = items ! nat (currentIndex s)"
    by (auto simp: currentItem_def split: if_splits)
  show ?thesis
  proof (cases "responses s (number item)")
    case None
    then show ?thesis using assms Some by (simp add: handleNext_def)
  next
    case (Some selected)
    have here: "number (items ! nat (currentIndex s)) \<in> dom (responses s)"
      using Some item by auto
    have below: "\<forall>j < length items. int j < currentIndex s + 1 \<longrightarrow>
        number (items ! j) \<in> dom (responses s)"
    proof (intro allI impI)
      fix j assume "j < length items" "int j < currentIndex s + 1"
      then have "int j < currentIndex s \<or> j = nat (currentIndex s)"
        using idx by auto
      then show "number (items ! j) \<in> dom (responses s)"
        using assms here \<open>j < length items\<close> by (auto simp: invariant_def)
    qed
    show ?thesis
    proof (cases "selected = 0")
      case True
      then show ?thesis
        using assms Some \<open>currentItem items s = Some item\<close> by (simp add: handleNext_def)
    next
      case False
      show ?thesis
      proof (cases "currentIndex s + 1 \<ge> totalItems items")
        case True
        then have hn: "handleNext items s = s\<lparr>stage := Result\<rparr>"
          using Some False \<open>currentItem items s = Some item\<close>
          by (simp add: handleNext_def Let_def)
        have "\<forall>j < length items. number (items ! j) \<in> dom (responses s)"
          using below True by (auto simp: totalItems_def)
        then show ?thesis
          using assms unfolding hn by (simp add: invariant_def)
      next
        case nt: False
        then have hn: "handleNext items s = s\<lparr>currentIndex := currentIndex s + 1\<rparr>"
          using Some False \<open>currentItem items s = Some item\<close>
          by (simp add: handleNext_def Let_def)
        show ?thesis
          using assms below nt idx unfolding hn by (simp add: invariant_def totalItems_def)
      qed
    qed
  qed
qed

lemma invariant_step:
  "invariant items s \<Longrightarrow> validAction a \<Longrightarrow> invariant items (step items s a)"
  by (cases a)
    (simp_all add: invariant_handleStart invariant_handleSelect invariant_handleNext
      invariant_handlePrevious invariant_handleRestart)

lemma reachable_invariant: "reachable items s \<Longrightarrow> invariant items s"
  by (induction rule: reachable.induct) (simp_all add: invariant_initial invariant_step)

lemma invariant_ratings:
  assumes "invariant items s" and "dom (responses s) = set (map number items)"
  shows "complete items (responses s)"
proof -
  have "\<And>item. item \<in> set items \<Longrightarrow>
      (case responses s (number item) of None \<Rightarrow> False | Some rating \<Rightarrow> 1 \<le> rating \<and> rating \<le> 5)"
  proof -
    fix item assume "item \<in> set items"
    then have "number item \<in> dom (responses s)" using assms(2) by auto
    then obtain r where r: "responses s (number item) = Some r" by auto
    then have "1 \<le> r \<and> r \<le> 5" using assms(1) by (auto simp: invariant_def)
    then show "case responses s (number item) of None \<Rightarrow> False | Some rating \<Rightarrow> 1 \<le> rating \<and> rating \<le> 5"
      using r by simp
  qed
  then show ?thesis using assms(2) by (simp add: complete_def list_all_iff)
qed

lemma invariant_result_complete:
  assumes "invariant items s" and "stage s = Result"
  shows "complete items (responses s)"
proof -
  have "set (map number items) \<subseteq> dom (responses s)"
  proof
    fix k assume "k \<in> set (map number items)"
    then obtain j where "j < length items" "k = number (items ! j)"
      by (auto simp: in_set_conv_nth)
    then show "k \<in> dom (responses s)" using assms by (auto simp: invariant_def)
  qed
  moreover have "dom (responses s) \<subseteq> set (map number items)"
    using assms(1) by (simp add: invariant_def)
  ultimately have "dom (responses s) = set (map number items)" by blast
  then show ?thesis using assms(1) by (rule invariant_ratings [rotated])
qed

lemma invariant_scored_complete:
  assumes "invariant items s" and "result items (responses s) \<noteq> None"
  shows "complete items (responses s)"
proof -
  have sub: "dom (responses s) \<subseteq> set (map number items)"
    using assms(1) by (simp add: invariant_def)
  have "allAnswered items (responses s)"
    using assms(2) by (auto simp: result_def split: if_splits)
  then have "card (dom (responses s)) = length items"
    by (simp add: allAnswered_def totalItems_def)
  moreover have "card (set (map number items)) \<le> length items"
    using card_length [of "map number items"] by simp
  ultimately have "card (set (map number items)) \<le> card (dom (responses s))" by simp
  with sub have "dom (responses s) = set (map number items)"
    by (intro card_seteq) simp_all
  then show ?thesis using assms(1) by (rule invariant_ratings [rotated])
qed

lemma reachable_run:
  "reachable items s \<Longrightarrow> list_all validAction actions \<Longrightarrow> reachable items (run items s actions)"
proof (induction actions arbitrary: s)
  case Nil
  then show ?case by (simp add: run_def)
next
  case (Cons a actions)
  then have "reachable items (step items s a)" by (simp add: reachable_step)
  then have "reachable items (run items (step items s a) actions)"
    using Cons by simp
  then show ?case by (simp add: run_def)
qed

text \<open>
  C6. In every state reachable from the initial \<open>intro\<close> state by start, select (a
  rating from 1 to 5), next, previous and restart actions: if the stage is \<open>result\<close>
  the response set is complete, and whenever the score summary is computed at all
  (\<open>result\<close> is not \<^verbatim>\<open>null\<close>) the response set is complete.
\<close>

theorem result_stage_complete:
  assumes "reachable items s"
  shows "(stage s = Result \<longrightarrow> complete items (responses s))
    \<and> (result items (responses s) \<noteq> None \<longrightarrow> complete items (responses s))"
  using assms reachable_invariant invariant_result_complete invariant_scored_complete by blast

lemma run_example:
  "run exampleItems initialState exampleActions
     = \<lparr>stage = Result, currentIndex = 1, responses = [1 \<mapsto> 4, 2 \<mapsto> 2]\<rparr>"
  by (simp add: run_def exampleActions_def exampleItems_def initialState_def handleStart_def
      handleSelect_def handleNext_def currentItem_def totalItems_def Let_def)

theorem result_stage_complete_witness:
  "reachable exampleItems (run exampleItems initialState exampleActions)
   \<and> stage (run exampleItems initialState exampleActions) = Result
   \<and> complete exampleItems (responses (run exampleItems initialState exampleActions))"
proof -
  have r: "reachable exampleItems (run exampleItems initialState exampleActions)"
    by (rule reachable_run [OF reachable_initial]) (simp add: exampleActions_def)
  have st: "stage (run exampleItems initialState exampleActions) = Result"
    by (simp add: run_example)
  from result_stage_complete [OF r] st show ?thesis using r by blast
qed

end
